theory Spec2Isabelle
  imports Complex_Main "HOL-Library.Multiset" "HOL-Library.Product_Lexorder" "HOL-Library.Option_ord"
begin

section \<open>Python values and exceptions\<close>

text \<open>
  The cached payload and the collaborators' results are Python dictionaries
  (\<^verbatim>\<open>Dict[str, Any]\<close>).  A dictionary is an association list from string keys to
  values; the values are the JSON-like part of Python's objects.

  A raised object is of one of two kinds: an instance of \<^verbatim>\<open>Exception\<close> (any subclass), which
  a handler \<^verbatim>\<open>except Exception\<close> catches, or a \<^verbatim>\<open>BaseException\<close> that is not an
  \<^verbatim>\<open>Exception\<close> (\<^verbatim>\<open>SystemExit\<close>, \<^verbatim>\<open>KeyboardInterrupt\<close>), which such a handler lets pass.  Either
  carries the text \<^verbatim>\<open>str(e)\<close> yields for it, which may be empty
  (\<^verbatim>\<open>str(ValueError())\<close> is the empty string).
\<close>

datatype pyval =
    PNone
  | PBool bool
  | PInt int
  | PStr string
  | PList "pyval list"
  | PDict "(string \<times> pyval) list"

type_synonym pydict = "(string \<times> pyval) list"

datatype exn = Exception string | BaseException string

fun str_exn :: "exn \<Rightarrow> string" where
  "str_exn (Exception msg) = msg"
| "str_exn (BaseException msg) = msg"

fun is_Exception :: "exn \<Rightarrow> bool" where
  "is_Exception (Exception msg) = True"
| "is_Exception (BaseException msg) = False"

text \<open>\<^verbatim>\<open>d.get(k, default)\<close> and \<^verbatim>\<open>d.get(k)\<close> (default \<^verbatim>\<open>None\<close>).\<close>

definition dict_get :: "pydict \<Rightarrow> string \<Rightarrow> pyval \<Rightarrow> pyval" where
  "dict_get d k dflt = (case map_of d k of None \<Rightarrow> dflt | Some v \<Rightarrow> v)"

text \<open>\<^verbatim>\<open>d[k]\<close> raises \<^verbatim>\<open>KeyError(k)\<close> on a missing key; its text is the key's repr.\<close>

definition dict_index :: "pydict \<Rightarrow> string \<Rightarrow> exn + pyval" where
  "dict_index d k =
     (case map_of d k of
        None \<Rightarrow> Inl (Exception (CHR 0x27 # k @ [CHR 0x27]))
      | Some v \<Rightarrow> Inr v)"

text \<open>Truthiness of an optional dictionary: \<^verbatim>\<open>None\<close> and \<^verbatim>\<open>{}\<close> are falsy.\<close>

fun truthy :: "pydict option \<Rightarrow> bool" where
  "truthy None = False"
| "truthy (Some d) = (d \<noteq> [])"

section \<open>The cache (\<^verbatim>\<open>cache/prompt_cache.py\<close>)\<close>

text \<open>
  A \<^verbatim>\<open>datetime\<close> is a number of microseconds, a \<^verbatim>\<open>timedelta\<close> likewise.
  The SQLite table \<^verbatim>\<open>cache_entries\<close> is the list of its rows in insertion order
  (\<^verbatim>\<open>key\<close> is the primary key, so a well-formed table holds a key once); the cache
  directory maps a key to the content of \<^verbatim>\<open>key.cache\<close>.  A blob is the pickled payload,
  or a file \<^verbatim>\<open>pickle.load\<close> cannot read.  The database and the file system do what
  they are asked, except where a fault is injected into \<^verbatim>\<open>set\<close>.
\<close>

type_synonym datetime = int

definition hours :: "int \<Rightarrow> int" where
  "hours h = h * 3600000000"

record cache_row =
  key :: string
  created_at :: datetime
  expires_at :: "datetime option"
  access_count :: nat
  last_accessed :: "datetime option"
  size_bytes :: nat
  tags :: "string list"
  file_path :: string

datatype blob = Pickled pydict | Unreadable

record prompt_cache =
  max_size_bytes :: nat
  default_ttl :: int
  cache_entries :: "cache_row list"
  cache_files :: "string \<Rightarrow> blob option"

text \<open>
  \<^verbatim>\<open>_generate_key\<close>: the three inputs are joined with \<^verbatim>\<open>|\<close> and hashed.  The hash
  function (\<^verbatim>\<open>hashlib.sha256(...).hexdigest()\<close>, over the UTF-8 bytes) is a parameter.
\<close>

definition cache_input :: "string \<Rightarrow> string \<Rightarrow> string \<Rightarrow> string" where
  "cache_input prompt target_llm optimization_type =
     prompt @ ''|'' @ target_llm @ ''|'' @ optimization_type"

definition generate_key :: "(string \<Rightarrow> string) \<Rightarrow> string \<Rightarrow> string \<Rightarrow> string \<Rightarrow> string" where
  "generate_key sha256 prompt target_llm optimization_type =
     sha256 (cache_input prompt target_llm optimization_type)"

definition get_file_path :: "string \<Rightarrow> string" where
  "get_file_path k = k @ ''.cache''"

text \<open>\<^verbatim>\<open>SELECT * FROM cache_entries WHERE key = ?\<close>, \<^verbatim>\<open>fetchone()\<close>.\<close>

definition select_row :: "string \<Rightarrow> cache_row list \<Rightarrow> cache_row option" where
  "select_row k rows = find (\<lambda>r. key r = k) rows"

text \<open>\<^verbatim>\<open>DELETE FROM cache_entries WHERE key = ?\<close>.\<close>

definition delete_row :: "string \<Rightarrow> cache_row list \<Rightarrow> cache_row list" where
  "delete_row k rows = filter (\<lambda>r. key r \<noteq> k) rows"

text \<open>\<^verbatim>\<open>INSERT OR REPLACE\<close>: a row of the same key is deleted, the new row is added.\<close>

definition insert_or_replace :: "cache_row \<Rightarrow> cache_row list \<Rightarrow> cache_row list" where
  "insert_or_replace row rows = delete_row (key row) rows @ [row]"

text \<open>\<^verbatim>\<open>UPDATE ... SET access_count = access_count + 1, last_accessed = ? WHERE key = ?\<close>.\<close>

definition touch_row :: "string \<Rightarrow> datetime \<Rightarrow> cache_row list \<Rightarrow> cache_row list" where
  "touch_row k now rows =
     map (\<lambda>r. if key r = k
              then r\<lparr>access_count := access_count r + 1, last_accessed := Some now\<rparr>
              else r) rows"

text \<open>\<^verbatim>\<open>_remove_entry\<close>: deletes the row, unlinks the file if it exists, returns True.\<close>

definition remove_entry :: "prompt_cache \<Rightarrow> string \<Rightarrow> bool \<times> prompt_cache" where
  "remove_entry c k =
     (True, c\<lparr>cache_entries := delete_row k (cache_entries c),
              cache_files := (cache_files c)(k := None)\<rparr>)"

text \<open>\<^verbatim>\<open>_get_total_size\<close>: \<^verbatim>\<open>SELECT SUM(size_bytes)\<close>, 0 on an empty table.\<close>

definition get_total_size :: "prompt_cache \<Rightarrow> nat" where
  "get_total_size c = sum_list (map size_bytes (cache_entries c))"

text \<open>
  \<^verbatim>\<open>get\<close>, at the instant \<open>now\<close>.  The result is the payload or \<^verbatim>\<open>None\<close>, together with
  the cache after the call.
\<close>

definition expired :: "datetime \<Rightarrow> cache_row \<Rightarrow> bool" where
  "expired now row = (case expires_at row of None \<Rightarrow> False | Some e \<Rightarrow> now > e)"

definition get_cache ::
  "(string \<Rightarrow> string) \<Rightarrow> prompt_cache \<Rightarrow> datetime \<Rightarrow> string \<Rightarrow> string \<Rightarrow> string
     \<Rightarrow> pydict option \<times> prompt_cache" where
  "get_cache sha256 c now prompt target_llm optimization_type =
     (let k = generate_key sha256 prompt target_llm optimization_type in
      case select_row k (cache_entries c) of
        None \<Rightarrow> (None, c)
      | Some row \<Rightarrow>
          if expired now row then (None, snd (remove_entry c k))
          else
            let c1 = c\<lparr>cache_entries := touch_row k now (cache_entries c)\<rparr> in
            (case cache_files c1 k of
               None \<Rightarrow> (None, snd (remove_entry c1 k))
             | Some Unreadable \<Rightarrow> (None, snd (remove_entry c1 k))
             | Some (Pickled cached_data) \<Rightarrow> (Some cached_data, c1)))"

text \<open>
  \<^verbatim>\<open>_cleanup_by_size\<close>: the rows in the order
  \<^verbatim>\<open>ORDER BY access_count ASC, last_accessed ASC\<close> (SQLite sorts NULL first; rows that
  tie keep their table order), removed one by one until \<open>freed_bytes\<close> reaches
  \<open>needed_bytes\<close>.
\<close>

definition lru_key :: "cache_row \<Rightarrow> nat \<times> datetime option" where
  "lru_key r = (access_count r, last_accessed r)"

definition lru_rows :: "cache_row list \<Rightarrow> cache_row list" where
  "lru_rows rows = sort_key lru_key rows"

fun evict_rows ::
  "prompt_cache \<Rightarrow> cache_row list \<Rightarrow> nat \<Rightarrow> nat \<Rightarrow> nat \<Rightarrow> prompt_cache \<times> nat \<times> nat" where
  "evict_rows c [] needed_bytes removed_count freed_bytes = (c, removed_count, freed_bytes)"
| "evict_rows c (row # rows) needed_bytes removed_count freed_bytes =
     (if freed_bytes \<ge> needed_bytes then (c, removed_count, freed_bytes)
      else
        let (ok, c') = remove_entry c (key row) in
        if ok then evict_rows c' rows needed_bytes (removed_count + 1) (freed_bytes + size_bytes row)
        else evict_rows c' rows needed_bytes removed_count freed_bytes)"

definition cleanup_by_size :: "prompt_cache \<Rightarrow> nat \<Rightarrow> nat \<times> prompt_cache" where
  "cleanup_by_size c needed_bytes =
     (let (c', removed_count, freed_bytes) =
            evict_rows c (lru_rows (cache_entries c)) needed_bytes 0 0
      in (removed_count, c'))"

text \<open>
  \<^verbatim>\<open>set\<close>, at the instant \<open>now\<close>.  The size of the pickled payload
  (\<^verbatim>\<open>file_path.stat().st_size\<close>) is given by the parameter \<open>pickled_size\<close>.  The fault says
  where the \<^verbatim>\<open>try\<close> block raises, if it does: while the blob is written
  (\<^verbatim>\<open>open\<close> or \<^verbatim>\<open>pickle.dump\<close>), or when the metadata row is inserted.  The handler
  unlinks the file if it exists and returns False.
\<close>

datatype set_fault = NoFault | BlobWriteFails | MetadataInsertFails

definition set_cache ::
  "(string \<Rightarrow> string) \<Rightarrow> (pydict \<Rightarrow> nat) \<Rightarrow> set_fault \<Rightarrow> prompt_cache \<Rightarrow> datetime
     \<Rightarrow> string \<Rightarrow> string \<Rightarrow> pydict \<Rightarrow> string \<Rightarrow> int option \<Rightarrow> string list option
     \<Rightarrow> bool \<times> prompt_cache" where
  "set_cache sha256 pickled_size fault c now prompt target_llm data optimization_type ttl_hours tgs =
     (let k = generate_key sha256 prompt target_llm optimization_type;
          expires = (case ttl_hours of Some h \<Rightarrow> now + hours h | None \<Rightarrow> now + default_ttl c)
      in
      if fault = BlobWriteFails
      then (False, c\<lparr>cache_files := (cache_files c)(k := None)\<rparr>)
      else
        let c1 = c\<lparr>cache_files := (cache_files c)(k \<mapsto> Pickled data)\<rparr>;
            sz = pickled_size data;
            c2 = (if get_total_size c1 + sz > max_size_bytes c1
                  then snd (cleanup_by_size c1 sz) else c1)
        in
        if fault = MetadataInsertFails
        then (False, c2\<lparr>cache_files := (cache_files c2)(k := None)\<rparr>)
        else
          (True,
           c2\<lparr>cache_entries :=
                insert_or_replace
                  \<lparr>key = k, created_at = now, expires_at = Some expires, access_count = 0,
                   last_accessed = None, size_bytes = sz,
                   tags = (case tgs of None \<Rightarrow> [] | Some ts \<Rightarrow> ts),
                   file_path = get_file_path k\<rparr>
                  (cache_entries c2)\<rparr>))"


section \<open>Batch processing (\<^verbatim>\<open>chains/batch_processor.py\<close>)\<close>

text \<open>
  A Python float is a rational number.  What the float operations and \<^verbatim>\<open>round(x, n)\<close>
  return (the correctly rounded quotient, product and difference, and the float rounded
  to \<open>n\<close> decimals) is given by parameters.  True division raises
  \<^verbatim>\<open>ZeroDivisionError\<close> on a zero divisor.
\<close>

record float_ops =
  fdiv :: "rat \<Rightarrow> rat \<Rightarrow> rat"
  fmul :: "rat \<Rightarrow> rat \<Rightarrow> rat"
  fsub :: "rat \<Rightarrow> rat \<Rightarrow> rat"
  fround :: "rat \<Rightarrow> nat \<Rightarrow> rat"

definition ZeroDivisionError :: exn where
  "ZeroDivisionError = Exception ''division by zero''"

definition py_truediv :: "float_ops \<Rightarrow> rat \<Rightarrow> rat \<Rightarrow> exn + rat" where
  "py_truediv F a b = (if b = 0 then Inl ZeroDivisionError else Inr (fdiv F a b))"

record batch_item =
  id_item :: string
  prompt :: string
  target_llm :: string
  optimization_type :: string
  metadata :: pydict

record batch_result =
  item_id :: string
  original_prompt :: string
  optimized_prompt :: pyval
  formatted_prompt :: pyval
  target_llm_result :: string
  processing_time_seconds :: rat
  success :: bool
  error_message :: "string option"
  analysis :: pyval
  routing_metadata :: pyval

record batch_report =
  batch_id :: string
  started_at :: datetime
  completed_at :: "datetime option"
  total_items_report :: nat
  processed_items :: nat
  successful_items :: nat
  failed_items :: nat
  total_time_seconds :: rat
  average_time_per_item :: rat
  results :: "batch_result list"
  errors :: "string list"

subsection \<open>\<^verbatim>\<open>ProgressTracker\<close>\<close>

record progress_tracker =
  total_items :: int
  completed_items :: int
  start_time :: rat

record progress =
  progress_total_items :: int
  progress_completed_items :: int
  progress_percent :: rat
  elapsed_time_seconds :: rat
  eta_seconds :: rat
  avg_time_per_item :: rat

definition init_tracker :: "int \<Rightarrow> rat \<Rightarrow> progress_tracker" where
  "init_tracker n t = \<lparr>total_items = n, completed_items = 0, start_time = t\<rparr>"

definition update :: "progress_tracker \<Rightarrow> int \<Rightarrow> progress_tracker" where
  "update t completed = t\<lparr>completed_items := completed_items t + completed\<rparr>"

text \<open>
  \<^verbatim>\<open>get_progress\<close>, with \<open>now\<close> the reading of \<^verbatim>\<open>time.time()\<close>.  The second division is
  guarded by \<^verbatim>\<open>completed_items > 0\<close>.
\<close>

definition get_progress :: "float_ops \<Rightarrow> progress_tracker \<Rightarrow> rat \<Rightarrow> exn + progress" where
  "get_progress F t now =
     (let elapsed_time = fsub F now (start_time t) in
      case py_truediv F (of_int (completed_items t)) (of_int (total_items t)) of
        Inl e \<Rightarrow> Inl e
      | Inr q \<Rightarrow>
          let percent = fmul F q 100;
              avg = (if completed_items t > 0
                     then fdiv F elapsed_time (of_int (completed_items t)) else 0);
              eta = (if completed_items t > 0
                     then fmul F avg (of_int (total_items t - completed_items t)) else 0)
          in Inr \<lparr>progress_total_items = total_items t,
                  progress_completed_items = completed_items t,
                  progress_percent = fround F percent 2,
                  elapsed_time_seconds = fround F elapsed_time 2,
                  eta_seconds = fround F eta 2,
                  avg_time_per_item = fround F avg 3\<rparr>)"

subsection \<open>\<^verbatim>\<open>BatchProcessor._process_single_item\<close>\<close>

text \<open>
  The collaborators, the two library functions and the float operations are parameters:
  each collaborator returns its value or raises.  The analyzer's result stands for
  \<^verbatim>\<open>analysis.to_dict()\<close>.  A worker's state is the cache and the log of the
  collaborator calls made so far.
\<close>

record deps =
  sha256_hexdigest :: "string \<Rightarrow> string"
  st_size :: "pydict \<Rightarrow> nat"
  arith :: float_ops
  optimize :: "string \<Rightarrow> string \<Rightarrow> exn + string"
  route_prompt :: "string \<Rightarrow> string \<Rightarrow> exn + pydict"
  analyze :: "string \<Rightarrow> string \<Rightarrow> exn + pydict"
  save_analysis :: "pydict \<Rightarrow> exn option"

datatype call =
    OptimizeCall string string
  | RouteCall string string
  | AnalyzeCall string string
  | SaveAnalysisCall pydict

record world =
  cache :: prompt_cache
  calls :: "call list"

definition log_call :: "call \<Rightarrow> world \<Rightarrow> world" where
  "log_call c w = w\<lparr>calls := calls w @ [c]\<rparr>"

text \<open>The optional analysis step: \<^verbatim>\<open>analyze\<close>, then \<^verbatim>\<open>save_analysis\<close>.\<close>

definition run_analysis :: "deps \<Rightarrow> world \<Rightarrow> batch_item \<Rightarrow> bool \<Rightarrow> (exn + pyval) \<times> world" where
  "run_analysis D w item enable_analysis =
     (if \<not> enable_analysis then (Inr PNone, w)
      else
        let w1 = log_call (AnalyzeCall (prompt item) (target_llm item)) w in
        case analyze D (prompt item) (target_llm item) of
          Inl e \<Rightarrow> (Inl e, w1)
        | Inr a \<Rightarrow>
            let w2 = log_call (SaveAnalysisCall a) w1 in
            (case save_analysis D a of
               Some e \<Rightarrow> (Inl e, w2)
             | None \<Rightarrow> (Inr (PDict a), w2)))"

text \<open>The path after a cache miss, up to the successful result.\<close>

definition compute_item ::
  "deps \<Rightarrow> world \<Rightarrow> batch_item \<Rightarrow> bool \<Rightarrow> bool \<Rightarrow> set_fault \<Rightarrow> datetime \<Rightarrow> rat \<Rightarrow> rat
     \<Rightarrow> (exn + batch_result) \<times> world" where
  "compute_item D w item enable_analysis enable_cache fault now t0 t1 =
     (let w1 = log_call (OptimizeCall (prompt item) (target_llm item)) w in
      case optimize D (prompt item) (target_llm item) of
        Inl e \<Rightarrow> (Inl e, w1)
      | Inr optimized \<Rightarrow>
          let w2 = log_call (RouteCall optimized (target_llm item)) w1 in
          (case route_prompt D optimized (target_llm item) of
             Inl e \<Rightarrow> (Inl e, w2)
           | Inr routing_result \<Rightarrow>
               (case run_analysis D w2 item enable_analysis of
                  (Inl e, w3) \<Rightarrow> (Inl e, w3)
                | (Inr analysis_result, w3) \<Rightarrow>
                    (case dict_index routing_result ''formatted_prompt'' of
                       Inl e \<Rightarrow> (Inl e, w3)
                     | Inr formatted \<Rightarrow>
                         (case dict_index routing_result ''metadata'' of
                            Inl e \<Rightarrow> (Inl e, w3)
                          | Inr meta \<Rightarrow>
                              let result_data =
                                    [(''optimized_prompt'', PStr optimized),
                                     (''formatted_prompt'', formatted),
                                     (''analysis'', analysis_result),
                                     (''routing_metadata'', meta)];
                                  w4 = (if enable_cache
                                        then w3\<lparr>cache :=
                                               snd (set_cache (sha256_hexdigest D) (st_size D) fault
                                                      (cache w3) now (prompt item) (target_llm item)
                                                      result_data (optimization_type item) None
                                                      (Some [''batch'', target_llm item]))\<rparr>
                                        else w3)
                              in (Inr \<lparr>item_id = id_item item,
                                       original_prompt = prompt item,
                                       optimized_prompt = PStr optimized,
                                       formatted_prompt = formatted,
                                       target_llm_result = target_llm item,
                                       processing_time_seconds = fsub (arith D) t1 t0,
                                       success = True,
                                       error_message = None,
                                       analysis = analysis_result,
                                       routing_metadata = meta\<rparr>, w4))))))"

text \<open>The body of the \<^verbatim>\<open>try\<close> block: the cache lookup, then the hit or the miss path.\<close>

definition try_item ::
  "deps \<Rightarrow> world \<Rightarrow> batch_item \<Rightarrow> bool \<Rightarrow> bool \<Rightarrow> set_fault \<Rightarrow> datetime \<Rightarrow> rat \<Rightarrow> rat
     \<Rightarrow> (exn + batch_result) \<times> world" where
  "try_item D w item enable_analysis enable_cache fault now t0 t1 =
     (let (cached_result, c1) =
            (if enable_cache
             then get_cache (sha256_hexdigest D) (cache w) now
                    (prompt item) (target_llm item) (optimization_type item)
             else (None, cache w));
          w1 = w\<lparr>cache := c1\<rparr>
      in
      case cached_result of
        None \<Rightarrow> compute_item D w1 item enable_analysis enable_cache fault now t0 t1
      | Some d \<Rightarrow>
          if truthy (Some d)
          then (Inr \<lparr>item_id = id_item item,
                     original_prompt = prompt item,
                     optimized_prompt = dict_get d ''optimized_prompt'' (PStr (prompt item)),
                     formatted_prompt = dict_get d ''formatted_prompt'' (PStr (prompt item)),
                     target_llm_result = target_llm item,
                     processing_time_seconds = fsub (arith D) t1 t0,
                     success = True,
                     error_message = None,
                     analysis = dict_get d ''analysis'' PNone,
                     routing_metadata = dict_get d ''routing_metadata'' PNone\<rparr>, w1)
          else compute_item D w1 item enable_analysis enable_cache fault now t0 t1)"

text \<open>
  \<^verbatim>\<open>_process_single_item\<close>: the handler \<^verbatim>\<open>except Exception\<close> turns an \<^verbatim>\<open>Exception\<close> raised in
  the body into a failed result; any other raised object leaves the function.  The value
  is what \<^verbatim>\<open>future.result()\<close> gives the scheduler: a result, or the raised object.
\<close>

definition process_single_item ::
  "deps \<Rightarrow> world \<Rightarrow> batch_item \<Rightarrow> bool \<Rightarrow> bool \<Rightarrow> set_fault \<Rightarrow> datetime \<Rightarrow> rat \<Rightarrow> rat
     \<Rightarrow> (exn + batch_result) \<times> world" where
  "process_single_item D w item enable_analysis enable_cache fault now t0 t1 =
     (case try_item D w item enable_analysis enable_cache fault now t0 t1 of
        (Inr r, w') \<Rightarrow> (Inr r, w')
      | (Inl e, w') \<Rightarrow>
          if is_Exception e
          then (Inr \<lparr>item_id = id_item item,
                     original_prompt = prompt item,
                     optimized_prompt = PStr [],
                     formatted_prompt = PStr [],
                     target_llm_result = target_llm item,
                     processing_time_seconds = fsub (arith D) t1 t0,
                     success = False,
                     error_message = Some (str_exn e),
                     analysis = PNone,
                     routing_metadata = PNone\<rparr>, w')
          else (Inl e, w'))"

subsection \<open>\<^verbatim>\<open>BatchProcessor.process_batch\<close>\<close>

text \<open>
  A submitted item comes with what its run observes: the fault of its cache store, the
  instant of its cache operations, the clock readings at its start and at its end, and
  the reading when the scheduler reports progress after it.  The order in which
  \<^verbatim>\<open>as_completed\<close> yields the futures is not determined by the program: it is the
  argument \<open>completed\<close>, a rearrangement of the submitted items, and the workers' steps are
  taken one item after the other in that order.  The progress callback returns or
  raises.  Writing the report file changes nothing in the report and is left out.
\<close>

record item_run =
  run_item :: batch_item
  run_fault :: set_fault
  run_now :: datetime
  run_start :: rat
  run_end :: rat
  run_reported :: rat

type_synonym callback = "progress \<Rightarrow> exn option"

text \<open>
  The handler of the scheduler's loop body, \<^verbatim>\<open>except Exception\<close>: an \<^verbatim>\<open>Exception\<close> is
  recorded as \<^verbatim>\<open>Erro critico no item ...\<close> and counted as a failed item; any other raised
  object leaves the loop.
\<close>

definition critical_error :: "batch_report \<Rightarrow> batch_item \<Rightarrow> exn \<Rightarrow> batch_report" where
  "critical_error report item e =
     report\<lparr>errors := errors report @
               [''Erro cr'' @ [CHR 0xC3, CHR 0xAD] @ ''tico no item '' @ id_item item @ '': '' @ str_exn e],
            failed_items := failed_items report + 1\<rparr>"

definition loop_handler ::
  "batch_report \<Rightarrow> progress_tracker \<Rightarrow> batch_item \<Rightarrow> exn
     \<Rightarrow> exn + batch_report \<times> progress_tracker" where
  "loop_handler report progress item e =
     (if is_Exception e then Inr (critical_error report item e, progress) else Inl e)"

text \<open>One turn of the loop over the completed futures.\<close>

definition collect_result ::
  "float_ops \<Rightarrow> callback option \<Rightarrow> rat \<Rightarrow> batch_report \<times> progress_tracker \<Rightarrow> batch_item
     \<Rightarrow> exn + batch_result \<Rightarrow> exn + batch_report \<times> progress_tracker" where
  "collect_result F progress_callback tnow acc item fut =
     (let (report, progress) = acc in
      case fut of
        Inl e \<Rightarrow> loop_handler report progress item e
      | Inr result \<Rightarrow>
          let report1 = report\<lparr>results := results report @ [result]\<rparr>;
              report2 =
                (if success result
                 then report1\<lparr>successful_items := successful_items report1 + 1\<rparr>
                 else
                   let r = report1\<lparr>failed_items := failed_items report1 + 1\<rparr> in
                   (case error_message result of
                      None \<Rightarrow> r
                    | Some m \<Rightarrow>
                        if m \<noteq> []
                        then r\<lparr>errors := errors r @ [''Item '' @ id_item item @ '': '' @ m]\<rparr>
                        else r));
              report3 = report2\<lparr>processed_items := processed_items report2 + 1\<rparr>;
              progress1 = update progress 1
          in
          (case progress_callback of
             None \<Rightarrow> Inr (report3, progress1)
           | Some f \<Rightarrow>
               (case get_progress F progress1 tnow of
                  Inl e \<Rightarrow> loop_handler report3 progress1 item e
                | Inr p \<Rightarrow>
                    (case f p of
                       None \<Rightarrow> Inr (report3, progress1)
                     | Some e \<Rightarrow> loop_handler report3 progress1 item e))))"

text \<open>
  When a raised object leaves the loop, the executor's \<^verbatim>\<open>with\<close> block still waits for the
  submitted items: their runs change the cache, and no report is made.
\<close>

fun run_workers :: "deps \<Rightarrow> bool \<Rightarrow> bool \<Rightarrow> world \<Rightarrow> item_run list \<Rightarrow> world" where
  "run_workers D enable_analysis enable_cache w [] = w"
| "run_workers D enable_analysis enable_cache w (r # rs) =
     run_workers D enable_analysis enable_cache
       (snd (process_single_item D w (run_item r) enable_analysis enable_cache
               (run_fault r) (run_now r) (run_start r) (run_end r))) rs"

fun run_batch ::
  "deps \<Rightarrow> bool \<Rightarrow> bool \<Rightarrow> callback option \<Rightarrow> world \<Rightarrow> batch_report \<times> progress_tracker
     \<Rightarrow> item_run list \<Rightarrow> (exn + batch_report \<times> progress_tracker) \<times> world" where
  "run_batch D enable_analysis enable_cache cb w acc [] = (Inr acc, w)"
| "run_batch D enable_analysis enable_cache cb w acc (r # rs) =
     (let (fut, w') = process_single_item D w (run_item r) enable_analysis enable_cache
                        (run_fault r) (run_now r) (run_start r) (run_end r)
      in case collect_result (arith D) cb (run_reported r) acc (run_item r) fut of
           Inl e \<Rightarrow> (Inl e, run_workers D enable_analysis enable_cache w' rs)
         | Inr acc' \<Rightarrow> run_batch D enable_analysis enable_cache cb w' acc' rs)"

text \<open>
  \<^verbatim>\<open>process_batch\<close>.  \<open>batch_runs\<close> are the submitted items, \<open>completed\<close> the same items in
  the order of completion.  \<open>generated_id\<close> is the name made from the clock when no batch
  id is given; \<open>t_started\<close> and \<open>t_completed\<close> are the two readings of
  \<^verbatim>\<open>datetime.now()\<close>, \<open>t_tracker\<close> the reading the tracker starts with.  The value is the
  report, or the raised object that left the loop.
\<close>

definition process_batch ::
  "deps \<Rightarrow> world \<Rightarrow> item_run list \<Rightarrow> item_run list \<Rightarrow> string option \<Rightarrow> string \<Rightarrow> bool \<Rightarrow> bool
     \<Rightarrow> callback option \<Rightarrow> datetime \<Rightarrow> datetime \<Rightarrow> rat \<Rightarrow> (exn + batch_report) \<times> world" where
  "process_batch D w batch_runs completed batch_id_arg generated_id enable_analysis enable_cache
     progress_callback t_started t_completed t_tracker =
     (let bid = (case batch_id_arg of
                   None \<Rightarrow> generated_id
                 | Some b \<Rightarrow> if b = [] then generated_id else b);
          report0 = \<lparr>batch_id = bid, started_at = t_started, completed_at = None,
                     total_items_report = length batch_runs, processed_items = 0,
                     successful_items = 0, failed_items = 0, total_time_seconds = 0,
                     average_time_per_item = 0, results = [], errors = []\<rparr>;
          progress0 = init_tracker (int (length batch_runs)) t_tracker
      in
      case run_batch D enable_analysis enable_cache progress_callback w
             (report0, progress0) completed of
        (Inl e, w') \<Rightarrow> (Inl e, w')
      | (Inr (report, progress), w') \<Rightarrow>
          let total = fdiv (arith D) (of_int (t_completed - t_started)) 1000000;
              report1 = report\<lparr>completed_at := Some t_completed, total_time_seconds := total\<rparr>;
              report2 = (if processed_items report1 > 0
                         then report1\<lparr>average_time_per_item :=
                                         fdiv (arith D) total (of_nat (processed_items report1))\<rparr>
                         else report1)
          in (Inr report2, w'))"

section \<open>Auxiliary definitions\<close>

text \<open>
  The rows the eviction loop removes from a candidate list: the loop stops at the first
  row before which the freed bytes have reached the needed bytes.
\<close>

fun victims :: "cache_row list \<Rightarrow> nat \<Rightarrow> nat \<Rightarrow> cache_row list" where
  "victims [] needed freed = []"
| "victims (r # rs) needed freed =
     (if freed \<ge> needed then [] else r # victims rs needed (freed + size_bytes r))"

text \<open>Example states: a row with a readable blob for every key of the table.\<close>

definition mk_row :: "string \<Rightarrow> nat \<Rightarrow> datetime option \<Rightarrow> nat \<Rightarrow> datetime option \<Rightarrow> cache_row" where
  "mk_row k n accessed sz expires =
     \<lparr>key = k, created_at = 0, expires_at = expires, access_count = n,
      last_accessed = accessed, size_bytes = sz, tags = [], file_path = get_file_path k\<rparr>"

definition example_cache :: "nat \<Rightarrow> cache_row list \<Rightarrow> prompt_cache" where
  "example_cache budget rows =
     \<lparr>max_size_bytes = budget, default_ttl = hours 24, cache_entries = rows,
      cache_files = (\<lambda>k. if k \<in> key ` set rows then Some (Pickled [(''key'', PStr k)]) else None)\<rparr>"

text \<open>
  Example collaborators: each returns a value built from its input.  The example item has
  the key \<^verbatim>\<open>p|t|o\<close> under the identity hash of the example.  The float operations of the
  examples are the exact ones, on values where the floats are exact too.
\<close>

definition exact_round :: "rat \<Rightarrow> nat \<Rightarrow> rat" where
  "exact_round x n =
     (let y = x * 10 ^ n;
          f = \<lfloor>y\<rfloor>;
          d = y - of_int f;
          r = (if d < 1 / 2 then f else if d > 1 / 2 then f + 1
               else if even f then f else f + 1)
      in of_int r / 10 ^ n)"

definition exact_ops :: float_ops where
  "exact_ops = \<lparr>fdiv = (\<lambda>a b. a / b), fmul = (\<lambda>a b. a * b), fsub = (\<lambda>a b. a - b),
                fround = exact_round\<rparr>"

definition example_deps :: deps where
  "example_deps =
     \<lparr>sha256_hexdigest = (\<lambda>s. s),
      st_size = (\<lambda>_. 10),
      arith = exact_ops,
      optimize = (\<lambda>p t. Inr (''opt '' @ p)),
      route_prompt = (\<lambda>p t. Inr [(''formatted_prompt'', PStr (''fmt '' @ p)),
                                  (''metadata'', PDict [])]),
      analyze = (\<lambda>p t. Inr [(''word_count'', PInt 1)]),
      save_analysis = (\<lambda>a. None)\<rparr>"

definition example_item :: "string \<Rightarrow> batch_item" where
  "example_item i =
     \<lparr>id_item = i, prompt = ''p'', target_llm = ''t'', optimization_type = ''o'', metadata = []\<rparr>"

definition example_world :: "pydict \<Rightarrow> world" where
  "example_world payload =
     \<lparr>cache = (example_cache 1000 [mk_row ''p|t|o'' 0 None 10 (Some 100)])
                 \<lparr>cache_files := (\<lambda>k. if k = ''p|t|o'' then Some (Pickled payload) else None)\<rparr>,
      calls = []\<rparr>"

definition empty_world :: world where
  "empty_world = \<lparr>cache = example_cache 1000 [], calls = []\<rparr>"

definition example_run :: "string \<Rightarrow> rat \<Rightarrow> item_run" where
  "example_run i t =
     \<lparr>run_item = example_item i, run_fault = NoFault, run_now = 5, run_start = 0,
      run_end = t, run_reported = t\<rparr>"

text \<open>Collaborators and callbacks that raise nothing but instances of \<^verbatim>\<open>Exception\<close>.\<close>

definition raise_only_Exception :: "deps \<Rightarrow> bool" where
  "raise_only_Exception D =
     ((\<forall>p t e. optimize D p t = Inl e \<longrightarrow> is_Exception e)
    \<and> (\<forall>p t e. route_prompt D p t = Inl e \<longrightarrow> is_Exception e)
    \<and> (\<forall>p t e. analyze D p t = Inl e \<longrightarrow> is_Exception e)
    \<and> (\<forall>a e. save_analysis D a = Some e \<longrightarrow> is_Exception e))"

definition callback_raises_only_Exception :: "callback option \<Rightarrow> bool" where
  "callback_raises_only_Exception cb =
     (\<forall>f p e. cb = Some f \<and> f p = Some e \<longrightarrow> is_Exception e)"

section \<open>The eviction loop\<close>

lemma evict_rows_entries:
  "cache_entries (fst (evict_rows c rows needed removed freed)) =
     filter (\<lambda>r. key r \<notin> key ` set (victims rows needed freed)) (cache_entries c)"
  by (induction rows arbitrary: c removed freed)
     (auto simp: remove_entry_def delete_row_def Let_def intro: filter_cong)

lemma evict_rows_files:
  "cache_files (fst (evict_rows c rows needed removed freed)) k =
     (if k \<in> key ` set (victims rows needed freed) then None else cache_files c k)"
  by (induction rows arbitrary: c removed freed)
     (auto simp: remove_entry_def Let_def)

lemma evict_rows_counts:
  "snd (evict_rows c rows needed removed freed) =
     (removed + length (victims rows needed freed),
      freed + sum_list (map size_bytes (victims rows needed freed)))"
  by (induction rows arbitrary: c removed freed)
     (auto simp: remove_entry_def Let_def)

lemma victims_prefix:
  "victims rows needed freed = take (length (victims rows needed freed)) rows"
  by (induction rows arbitrary: freed) auto

lemma victims_stop:
  "length (victims rows needed freed) = length rows
   \<or> needed \<le> freed + sum_list (map size_bytes (victims rows needed freed))"
proof (induction rows arbitrary: freed)
  case Nil
  show ?case by simp
next
  case (Cons r rs)
  show ?case using Cons.IH[of "freed + size_bytes r"] by (auto simp: add.assoc)
qed

lemma victims_minimal:
  "m < length (victims rows needed freed) \<Longrightarrow>
     freed + sum_list (map size_bytes (take m rows)) < needed"
proof (induction rows arbitrary: freed m)
  case Nil
  then show ?case by simp
next
  case (Cons r rs)
  show ?case
  proof (cases m)
    case 0
    with Cons.prems show ?thesis by (auto split: if_splits)
  next
    case (Suc m')
    with Cons.prems have "freed < needed"
      and "m' < length (victims rs needed (freed + size_bytes r))"
      by (auto split: if_splits)
    from Cons.IH[OF this(2)] Suc show ?thesis by (simp add: add.assoc)
  qed
qed

section \<open>Properties of the cache key\<close>

text \<open>
  C8.  The key is claimed to identify the triple (prompt, target, optimization type):
  distinct triples never share a key.  The triple is joined with \<^verbatim>\<open>|\<close> before it is
  hashed, so two distinct triples whose joined text coincides get the same key, whatever
  the hash function is: the prompt \<^verbatim>\<open>a|b\<close> for the target \<^verbatim>\<open>c\<close> and the prompt \<^verbatim>\<open>a\<close> for
  the target \<^verbatim>\<open>b|c\<close> are one cache entry.
\<close>

theorem generate_key_collision:
  "generate_key sha256 ''a|b'' ''c'' ''d'' = generate_key sha256 ''a'' ''b|c'' ''d''
   \<and> (''a|b'', ''c'', ''d'') \<noteq> (''a'', ''b|c'', ''d'')"
  by (simp add: generate_key_def cache_input_def)

section \<open>Keys away from the separator\<close>

text \<open>
  The key does identify the triple when the hash function is injective and neither the
  target nor the optimization type contains the separator \<^verbatim>\<open>|\<close>.
\<close>

lemma split_at_first:
  assumes "xs @ c # ys = xs' @ c # ys'" and "c \<notin> set xs" and "c \<notin> set xs'"
  shows "xs = xs' \<and> ys = ys'"
  using assms
proof (induction xs arbitrary: xs')
  case Nil
  then show ?case by (cases xs') auto
next
  case (Cons x xs)
  then show ?case by (cases xs') auto
qed

lemma cache_input_injective:
  assumes e: "cache_input p t ot = cache_input p' t' ot'"
    and "CHR ''|'' \<notin> set t" "CHR ''|'' \<notin> set ot" "CHR ''|'' \<notin> set t'" "CHR ''|'' \<notin> set ot'"
  shows "p = p' \<and> t = t' \<and> ot = ot'"
proof -
  from e have "rev (cache_input p t ot) = rev (cache_input p' t' ot')" by simp
  then have r: "rev ot @ CHR ''|'' # (rev t @ CHR ''|'' # rev p)
              = rev ot' @ CHR ''|'' # (rev t' @ CHR ''|'' # rev p')"
    by (simp add: cache_input_def)
  from split_at_first[OF r] assms(3,5)
  have 1: "rev ot = rev ot'" and 2: "rev t @ CHR ''|'' # rev p = rev t' @ CHR ''|'' # rev p'"
    by simp_all
  from split_at_first[OF 2] assms(2,4) have "rev t = rev t'" and "rev p = rev p'" by simp_all
  with 1 show ?thesis by simp
qed

lemma generate_key_unique_without_separator:
  assumes "inj sha256"
    and "generate_key sha256 p t ot = generate_key sha256 p' t' ot'"
    and "CHR ''|'' \<notin> set t" "CHR ''|'' \<notin> set ot" "CHR ''|'' \<notin> set t'" "CHR ''|'' \<notin> set ot'"
  shows "p = p' \<and> t = t' \<and> ot = ot'"
proof -
  from assms(1,2) have "cache_input p t ot = cache_input p' t' ot'"
    by (simp add: generate_key_def inj_eq)
  then show ?thesis using assms(3-6) by (rule cache_input_injective)
qed

section \<open>Accounting of the cache size\<close>

lemma filter_take_keys_distinct:
  "distinct (map key xs) \<Longrightarrow>
     filter (\<lambda>r. key r \<notin> key ` set (take n xs)) xs = drop n xs"
proof (induction xs arbitrary: n)
  case Nil
  show ?case by simp
next
  case (Cons x xs)
  show ?case
  proof (cases n)
    case 0
    then show ?thesis by simp
  next
    case (Suc n')
    from Cons.prems have nx: "key x \<notin> key ` set xs" and d: "distinct (map key xs)" by auto
    have "filter (\<lambda>r. key r \<notin> key ` set (take n (x # xs))) (x # xs)
          = filter (\<lambda>r. key r \<notin> insert (key x) (key ` set (take n' xs))) xs"
      using Suc by simp
    also have "\<dots> = filter (\<lambda>r. key r \<notin> key ` set (take n' xs)) xs"
      using nx by (intro filter_cong refl) (metis imageI insert_iff)
    also have "\<dots> = drop n' xs" by (rule Cons.IH[OF d])
    finally show ?thesis using Suc by simp
  qed
qed

lemma sum_filter_mset_cong:
  fixes f :: "'a \<Rightarrow> nat"
  assumes "mset xs = mset ys"
  shows "sum_list (map f (filter P xs)) = sum_list (map f (filter P ys))"
proof -
  have "mset (map f (filter P xs)) = mset (map f (filter P ys))"
    using assms by (metis mset_filter mset_map)
  then have "sum_mset (mset (map f (filter P xs))) = sum_mset (mset (map f (filter P ys)))"
    by simp
  then show ?thesis by (simp only: sum_mset_sum_list)
qed

lemma total_after_eviction:
  assumes d: "distinct (map key rows)"
  shows "sum_list (map size_bytes
           (filter (\<lambda>r. key r \<notin> key ` set (take n (lru_rows rows))) rows))
         + sum_list (map size_bytes (take n (lru_rows rows)))
         = sum_list (map size_bytes rows)"
proof -
  let ?o = "lru_rows rows"
  have m: "mset ?o = mset rows" by (simp add: lru_rows_def)
  have "mset (map key ?o) = mset (map key rows)" using m by (metis mset_map)
  then have d': "distinct (map key ?o)" using d by (metis mset_eq_imp_distinct_iff)
  have "sum_list (map size_bytes (filter (\<lambda>r. key r \<notin> key ` set (take n ?o)) rows))
        = sum_list (map size_bytes (filter (\<lambda>r. key r \<notin> key ` set (take n ?o)) ?o))"
    by (rule sum_filter_mset_cong[OF m[symmetric]])
  also have "\<dots> = sum_list (map size_bytes (drop n ?o))"
    by (simp add: filter_take_keys_distinct[OF d'])
  finally have e: "sum_list (map size_bytes (filter (\<lambda>r. key r \<notin> key ` set (take n ?o)) rows))
        = sum_list (map size_bytes (drop n ?o))" .
  have "sum_list (map size_bytes (take n ?o)) + sum_list (map size_bytes (drop n ?o))
        = sum_list (map size_bytes ?o)"
    by (metis append_take_drop_id map_append sum_list_append)
  moreover have "sum_list (map size_bytes ?o) = sum_list (map size_bytes rows)"
    using sum_filter_mset_cong[OF m, of size_bytes "\<lambda>_. True"] by simp
  ultimately show ?thesis using e by simp
qed

lemma cleanup_by_size_eq:
  "cleanup_by_size c needed =
     (length (victims (lru_rows (cache_entries c)) needed 0),
      fst (evict_rows c (lru_rows (cache_entries c)) needed 0 0))"
  using evict_rows_counts[of c "lru_rows (cache_entries c)" needed 0 0]
  by (cases "evict_rows c (lru_rows (cache_entries c)) needed 0 0")
     (simp add: cleanup_by_size_def)

lemma sum_delete_row_le:
  "sum_list (map size_bytes (delete_row k rows)) \<le> sum_list (map size_bytes rows)"
  by (induction rows) (auto simp: delete_row_def)

section \<open>Capacity eviction\<close>

lemma victims_length: "length (victims rows needed freed) \<le> length rows"
  by (induction rows arbitrary: freed) auto

lemma set_cache_NoFault:
  "set_cache H sz NoFault c now p t d ot ttl tg =
     (let k = generate_key H p t ot;
          c1 = c\<lparr>cache_files := (cache_files c)(k \<mapsto> Pickled d)\<rparr>;
          c2 = (if get_total_size c + sz d > max_size_bytes c
                then snd (cleanup_by_size c1 (sz d)) else c1)
      in (True,
          c2\<lparr>cache_entries :=
               insert_or_replace
                 \<lparr>key = k, created_at = now,
                  expires_at = Some (case ttl of Some h \<Rightarrow> now + hours h | None \<Rightarrow> now + default_ttl c),
                  access_count = 0, last_accessed = None, size_bytes = sz d,
                  tags = (case tg of None \<Rightarrow> [] | Some ts \<Rightarrow> ts),
                  file_path = get_file_path k\<rparr>
                 (cache_entries c2)\<rparr>))"
  by (simp add: set_cache_def Let_def get_total_size_def)

text \<open>
  C4 (amended).  A \<^verbatim>\<open>set\<close> that succeeds evicts the first \<open>n\<close> rows of the order
  \<^verbatim>\<open>access_count ASC, last_accessed ASC\<close> and then stores its row.  No row is evicted when
  the total size plus the incoming size fits the budget.  Otherwise rows are removed one
  at a time until the bytes freed reach the size of the incoming entry (not merely the
  excess over the budget), or all rows are gone: \<open>n\<close> is the least number of rows whose
  sizes sum up to the incoming size.  When the keys of the table are distinct, the total
  was within the budget and the incoming entry fits the budget, the total is within the
  budget afterwards.
\<close>

theorem set_cache_eviction:
  assumes s: "set_cache H sz NoFault c now p t d ot ttl tg = (ok, c')"
  shows "\<exists>n row.
           n \<le> length (cache_entries c)
         \<and> sorted (map lru_key (lru_rows (cache_entries c)))
         \<and> mset (lru_rows (cache_entries c)) = mset (cache_entries c)
         \<and> key row = generate_key H p t ot \<and> size_bytes row = sz d
         \<and> cache_entries c' =
             insert_or_replace row
               (filter (\<lambda>r. key r \<notin> key ` set (take n (lru_rows (cache_entries c))))
                  (cache_entries c))
         \<and> (get_total_size c + sz d \<le> max_size_bytes c \<longrightarrow> n = 0)
         \<and> (get_total_size c + sz d > max_size_bytes c \<longrightarrow>
              (n = length (cache_entries c)
               \<or> sz d \<le> sum_list (map size_bytes (take n (lru_rows (cache_entries c)))))
              \<and> (\<forall>m<n. sum_list (map size_bytes (take m (lru_rows (cache_entries c)))) < sz d))
         \<and> (distinct (map key (cache_entries c)) \<and> get_total_size c \<le> max_size_bytes c
              \<and> sz d \<le> max_size_bytes c \<longrightarrow> get_total_size c' \<le> max_size_bytes c)"
proof -
  let ?k = "generate_key H p t ot"
  let ?rows = "cache_entries c"
  let ?o = "lru_rows ?rows"
  let ?c1 = "c\<lparr>cache_files := (cache_files c)(?k \<mapsto> Pickled d)\<rparr>"
  let ?row = "\<lparr>key = ?k, created_at = now,
                expires_at = Some (case ttl of Some h \<Rightarrow> now + hours h | None \<Rightarrow> now + default_ttl c),
                access_count = 0, last_accessed = None, size_bytes = sz d,
                tags = (case tg of None \<Rightarrow> [] | Some ts \<Rightarrow> ts),
                file_path = get_file_path ?k\<rparr>"
  have c': "c' = snd (set_cache H sz NoFault c now p t d ot ttl tg)" using s by simp
  have so: "sorted (map lru_key ?o)" by (simp add: lru_rows_def)
  have ms: "mset ?o = mset ?rows" by (simp add: lru_rows_def)
  have len: "length ?o = length ?rows" by (simp add: lru_rows_def)
  show ?thesis
  proof (cases "get_total_size c + sz d > max_size_bytes c")
    case False
    then have e: "cache_entries c' = insert_or_replace ?row ?rows"
      by (simp add: c' set_cache_NoFault Let_def)
    have "get_total_size c' \<le> get_total_size c + sz d"
      using e sum_delete_row_le[of ?k ?rows]
      by (simp add: get_total_size_def insert_or_replace_def)
    with False e so ms show ?thesis
      by (intro exI[of _ 0] exI[of _ ?row]) (simp add: get_total_size_def)
  next
    case True
    let ?v = "victims ?o (sz d) 0"
    let ?n = "length ?v"
    have v: "?v = take ?n ?o" by (rule victims_prefix)
    have c2: "cache_entries (snd (cleanup_by_size ?c1 (sz d)))
              = filter (\<lambda>r. key r \<notin> key ` set (take ?n ?o)) ?rows"
      using evict_rows_entries[of ?c1 ?o "sz d" 0 0] v
      by (simp add: cleanup_by_size_eq)
    have e: "cache_entries c' =
               insert_or_replace ?row (filter (\<lambda>r. key r \<notin> key ` set (take ?n ?o)) ?rows)"
      using True c2 by (simp add: c' set_cache_NoFault Let_def)
    have nle: "?n \<le> length ?rows"
      using victims_length[of ?o "sz d" 0] len by simp
    have stop: "?n = length ?rows \<or> sz d \<le> sum_list (map size_bytes (take ?n ?o))"
      using victims_stop[of ?o "sz d" 0] v len by simp
    have minimal: "\<forall>m<?n. sum_list (map size_bytes (take m ?o)) < sz d"
      using victims_minimal[of _ ?o "sz d" 0] by simp
    have budget: "get_total_size c' \<le> max_size_bytes c"
      if d: "distinct (map key ?rows)" and b: "get_total_size c \<le> max_size_bytes c"
        and f: "sz d \<le> max_size_bytes c"
    proof -
      let ?kept = "filter (\<lambda>r. key r \<notin> key ` set (take ?n ?o)) ?rows"
      have acc: "sum_list (map size_bytes ?kept) + sum_list (map size_bytes (take ?n ?o))
                 = sum_list (map size_bytes ?rows)"
        by (rule total_after_eviction[OF d])
      have t: "get_total_size c' \<le> sum_list (map size_bytes ?kept) + sz d"
        using e sum_delete_row_le[of ?k ?kept]
        by (simp add: get_total_size_def insert_or_replace_def)
      from stop show ?thesis
      proof
        assume "?n = length ?rows"
        then have "take ?n ?o = ?o" using len by simp
        then have "sum_list (map size_bytes (take ?n ?o)) = sum_list (map size_bytes ?rows)"
          using sum_filter_mset_cong[OF ms, of size_bytes "\<lambda>_. True"] by simp
        with acc have "sum_list (map size_bytes ?kept) = 0" by simp
        with t f show ?thesis by simp
      next
        assume "sz d \<le> sum_list (map size_bytes (take ?n ?o))"
        with acc t b show ?thesis by (simp add: get_total_size_def)
      qed
    qed
    from True e so ms nle stop minimal budget show ?thesis
      by (intro exI[of _ ?n] exI[of _ ?row]) simp
  qed
qed

lemmas cache_defs = set_cache_def get_cache_def generate_key_def cache_input_def get_total_size_def
      cleanup_by_size_def lru_rows_def lru_key_def remove_entry_def delete_row_def insert_or_replace_def
      select_row_def expired_def hours_def touch_row_def get_file_path_def mk_row_def example_cache_def

text \<open>
  The scenario of the specification is an instance: with a budget of 1200 bytes and three
  entries of 400 bytes, storing a fourth entry of 400 bytes evicts the least-used entry
  only, and leaves three entries of 1200 bytes in total.
\<close>

theorem set_cache_eviction_witness:
  "get_total_size (example_cache 1200
       [mk_row ''a|t|o'' 2 (Some 30) 400 (Some (hours 1)),
        mk_row ''b|t|o'' 0 None 400 (Some (hours 1)),
        mk_row ''c|t|o'' 1 (Some 20) 400 (Some (hours 1))]) = 1200
   \<and> map key (cache_entries (snd (set_cache (\<lambda>s. s) (\<lambda>_. 400) NoFault
        (example_cache 1200
          [mk_row ''a|t|o'' 2 (Some 30) 400 (Some (hours 1)),
           mk_row ''b|t|o'' 0 None 400 (Some (hours 1)),
           mk_row ''c|t|o'' 1 (Some 20) 400 (Some (hours 1))])
        40 ''d'' ''t'' [(''v'', PInt 4)] ''o'' (Some 1) None)))
      = [''a|t|o'', ''c|t|o'', ''d|t|o'']
   \<and> get_total_size (snd (set_cache (\<lambda>s. s) (\<lambda>_. 400) NoFault
        (example_cache 1200
          [mk_row ''a|t|o'' 2 (Some 30) 400 (Some (hours 1)),
           mk_row ''b|t|o'' 0 None 400 (Some (hours 1)),
           mk_row ''c|t|o'' 1 (Some 20) 400 (Some (hours 1))])
        40 ''d'' ''t'' [(''v'', PInt 4)] ''o'' (Some 1) None)) \<le> 1200"
  using set_cache_eviction [of "\<lambda>s. s" "\<lambda>_. 400"
        "example_cache 1200
          [mk_row ''a|t|o'' 2 (Some 30) 400 (Some (hours 1)),
           mk_row ''b|t|o'' 0 None 400 (Some (hours 1)),
           mk_row ''c|t|o'' 1 (Some 20) 400 (Some (hours 1))]"
        40 "''d''" "''t''" "[(''v'', PInt 4)]" "''o''" "Some 1" None True
        "snd (set_cache (\<lambda>s. s) (\<lambda>_. 400) NoFault
        (example_cache 1200
          [mk_row ''a|t|o'' 2 (Some 30) 400 (Some (hours 1)),
           mk_row ''b|t|o'' 0 None 400 (Some (hours 1)),
           mk_row ''c|t|o'' 1 (Some 20) 400 (Some (hours 1))])
        40 ''d'' ''t'' [(''v'', PInt 4)] ''o'' (Some 1) None)"]
  by (simp add: cache_defs Let_def)

text \<open>
  C4 as stated fails: the loop frees the size of the incoming entry, not the excess over
  the budget.  With a budget of 500 bytes and two entries of 200 bytes, storing an entry
  of 300 bytes evicts both entries, although evicting the first one alone leaves room
  for it.
\<close>

theorem set_cache_evicts_more_than_needed:
  "map key (cache_entries (snd (set_cache (\<lambda>s. s) (\<lambda>_. 300) NoFault
        (example_cache 500
          [mk_row ''a|t|o'' 0 None 200 (Some (hours 1)),
           mk_row ''b|t|o'' 1 (Some 20) 200 (Some (hours 1))])
        40 ''d'' ''t'' [(''v'', PInt 4)] ''o'' (Some 1) None)))
      = [''d|t|o'']
   \<and> get_total_size (snd (remove_entry (example_cache 500
          [mk_row ''a|t|o'' 0 None 200 (Some (hours 1)),
           mk_row ''b|t|o'' 1 (Some 20) 200 (Some (hours 1))]) ''a|t|o'')) + 300 \<le> 500"
  by (simp add: cache_defs Let_def)

section \<open>Lookups, expiration and failed stores\<close>

lemma key_not_in_delete_row: "k \<notin> key ` set (delete_row k rows)"
  by (auto simp: delete_row_def)

lemma select_row_insert_or_replace:
  "key row = k \<Longrightarrow> select_row k (insert_or_replace row rows) = Some row"
  by (induction rows) (auto simp: select_row_def insert_or_replace_def delete_row_def)

text \<open>
  C7.  A lookup that finds a row whose \<^verbatim>\<open>expires_at\<close> is set and has passed returns a
  miss, and when it returns neither a row of that key nor its blob is left in the store.
  A row whose \<^verbatim>\<open>expires_at\<close> is null is never expired, at any instant: the lookup returns
  its blob if the file is readable.
\<close>

theorem get_cache_expired:
  assumes r: "select_row (generate_key H p t ot) (cache_entries c) = Some row"
  shows "(\<forall>e. expires_at row = Some e \<and> now > e \<longrightarrow>
             fst (get_cache H c now p t ot) = None
           \<and> generate_key H p t ot \<notin> key ` set (cache_entries (snd (get_cache H c now p t ot)))
           \<and> cache_files (snd (get_cache H c now p t ot)) (generate_key H p t ot) = None)
       \<and> (expires_at row = None \<longrightarrow>
             \<not> expired now row
           \<and> (\<forall>d. cache_files c (generate_key H p t ot) = Some (Pickled d) \<longrightarrow>
                 fst (get_cache H c now p t ot) = Some d))"
  using r key_not_in_delete_row[of "generate_key H p t ot" "cache_entries c"]
  by (simp add: get_cache_def expired_def remove_entry_def Let_def)

theorem get_cache_expired_witness:
  "fst (get_cache (\<lambda>s. s) (example_cache 1000 [mk_row ''a|t|o'' 3 (Some 5) 10 (Some 10)]) 11
          ''a'' ''t'' ''o'') = None
   \<and> cache_entries (snd (get_cache (\<lambda>s. s)
          (example_cache 1000 [mk_row ''a|t|o'' 3 (Some 5) 10 (Some 10)]) 11 ''a'' ''t'' ''o'')) = []
   \<and> cache_files (snd (get_cache (\<lambda>s. s)
          (example_cache 1000 [mk_row ''a|t|o'' 3 (Some 5) 10 (Some 10)]) 11 ''a'' ''t'' ''o''))
        ''a|t|o'' = None
   \<and> fst (get_cache (\<lambda>s. s) (example_cache 1000 [mk_row ''a|t|o'' 3 (Some 5) 10 None]) 99999
          ''a'' ''t'' ''o'') = Some [(''key'', PStr ''a|t|o'')]"
  using get_cache_expired [of "\<lambda>s. s" "''a''" "''t''" "''o''"
          "example_cache 1000 [mk_row ''a|t|o'' 3 (Some 5) 10 (Some 10)]"
          "mk_row ''a|t|o'' 3 (Some 5) 10 (Some 10)" 11]
        get_cache_expired [of "\<lambda>s. s" "''a''" "''t''" "''o''"
          "example_cache 1000 [mk_row ''a|t|o'' 3 (Some 5) 10 None]"
          "mk_row ''a|t|o'' 3 (Some 5) 10 None" 99999]
  by (simp add: cache_defs Let_def)

text \<open>
  C2.  \<^verbatim>\<open>set\<close> followed by \<^verbatim>\<open>get\<close> does not always return the stored payload.  When the
  key already has a row and the store triggers the capacity eviction, the old row of the
  same key can be among the victims; removing it unlinks the file of the key, which is the
  blob just written.  \<^verbatim>\<open>set\<close> then inserts the metadata row and returns True, and the next
  \<^verbatim>\<open>get\<close> finds the row without its blob and returns a miss.  Here the budget is 100 bytes,
  the key holds an entry of 80 bytes (as a first \<^verbatim>\<open>set\<close> leaves it) and is stored again
  with a payload of 80 bytes.
\<close>

theorem set_then_get_lost:
  "fst (get_cache (\<lambda>s. s)
          (example_cache 100 [mk_row ''p|t|o'' 0 None 80 (Some (hours 24))]) 2 ''p'' ''t'' ''o'')
     = Some [(''key'', PStr ''p|t|o'')]
   \<and> fst (set_cache (\<lambda>s. s) (\<lambda>_. 80) NoFault
          (example_cache 100 [mk_row ''p|t|o'' 0 None 80 (Some (hours 24))])
          1 ''p'' ''t'' [(''v'', PInt 2)] ''o'' None None) = True
   \<and> fst (get_cache (\<lambda>s. s)
          (snd (set_cache (\<lambda>s. s) (\<lambda>_. 80) NoFault
             (example_cache 100 [mk_row ''p|t|o'' 0 None 80 (Some (hours 24))])
             1 ''p'' ''t'' [(''v'', PInt 2)] ''o'' None None))
          2 ''p'' ''t'' ''o'') = None"
  by (simp add: cache_defs Let_def)

text \<open>
  The round trip does hold when the key has no row yet, or when no eviction is needed.
\<close>

lemma set_cache_files_fresh:
  assumes "generate_key H p t ot \<notin> key ` set (cache_entries c)
           \<or> get_total_size c + sz d \<le> max_size_bytes c"
  shows "cache_files (snd (set_cache H sz NoFault c now p t d ot ttl tg)) (generate_key H p t ot)
         = Some (Pickled d)"
proof (cases "get_total_size c + sz d \<le> max_size_bytes c")
  case True
  then show ?thesis by (simp add: set_cache_NoFault Let_def)
next
  case False
  with assms have k: "generate_key H p t ot \<notin> key ` set (cache_entries c)" by simp
  let ?o = "lru_rows (cache_entries c)"
  have "set (victims ?o (sz d) 0) \<subseteq> set ?o"
    by (metis victims_prefix set_take_subset)
  then have "set (victims ?o (sz d) 0) \<subseteq> set (cache_entries c)"
    by (simp add: lru_rows_def)
  with k have "generate_key H p t ot \<notin> key ` set (victims ?o (sz d) 0)" by blast
  with False show ?thesis
    by (simp add: set_cache_NoFault Let_def cleanup_by_size_eq evict_rows_files)
qed

lemma set_then_get_roundtrip:
  assumes fresh: "generate_key H p t ot \<notin> key ` set (cache_entries c)
                  \<or> get_total_size c + sz d \<le> max_size_bytes c"
    and live: "\<not> now' > (case ttl of Some h \<Rightarrow> now + hours h | None \<Rightarrow> now + default_ttl c)"
  shows "fst (set_cache H sz NoFault c now p t d ot ttl tg) = True
       \<and> fst (get_cache H (snd (set_cache H sz NoFault c now p t d ot ttl tg)) now' p t ot) = Some d"
proof -
  let ?k = "generate_key H p t ot"
  let ?c' = "snd (set_cache H sz NoFault c now p t d ot ttl tg)"
  have f: "cache_files ?c' ?k = Some (Pickled d)" using fresh by (rule set_cache_files_fresh[of H p t ot c sz d])
  obtain row where row: "select_row ?k (cache_entries ?c') = Some row"
    and ex: "expires_at row = Some (case ttl of Some h \<Rightarrow> now + hours h | None \<Rightarrow> now + default_ttl c)"
    by (simp add: set_cache_NoFault Let_def select_row_insert_or_replace)
  from row ex live f show ?thesis
    by (simp add: get_cache_def expired_def Let_def set_cache_NoFault[THEN arg_cong, of fst])
qed




section \<open>The primary key\<close>

text \<open>
  Lookups and stores keep the keys of the table distinct, as the primary key of the
  SQLite table does; the empty table has distinct keys.
\<close>

lemma distinct_keys_delete_row:
  "distinct (map key rows) \<Longrightarrow> distinct (map key (delete_row k rows))"
  by (simp add: delete_row_def distinct_map_filter)

lemma distinct_keys_insert_or_replace:
  "distinct (map key rows) \<Longrightarrow> distinct (map key (insert_or_replace row rows))"
  by (auto simp: insert_or_replace_def delete_row_def distinct_map_filter)

lemma keys_touch_row: "map key (touch_row k now rows) = map key rows"
  by (induction rows) (simp_all add: touch_row_def)

lemma distinct_keys_get_cache:
  assumes "distinct (map key (cache_entries c))"
  shows "distinct (map key (cache_entries (snd (get_cache H c now p t ot))))"
  using assms
  by (auto simp: get_cache_def remove_entry_def Let_def keys_touch_row
                 distinct_keys_delete_row delete_row_def distinct_map_filter
           split: option.splits blob.splits)

lemma distinct_keys_set_cache:
  assumes "distinct (map key (cache_entries c))"
  shows "distinct (map key (cache_entries (snd (set_cache H sz fault c now p t d ot ttl tg))))"
proof -
  have ev: "distinct (map key (cache_entries (snd (cleanup_by_size c' n))))"
    if "distinct (map key (cache_entries c'))" for c' n
    using that by (simp add: cleanup_by_size_eq evict_rows_entries distinct_map_filter)
  show ?thesis
    using assms
    by (cases fault)
       (auto simp: set_cache_def Let_def intro!: distinct_keys_insert_or_replace ev)
qed

section \<open>Properties of the progress tracker\<close>

text \<open>
  C9.  \<^verbatim>\<open>get_progress\<close> divides by \<^verbatim>\<open>total_items\<close> without a guard: for a tracker of
  zero items it raises \<^verbatim>\<open>ZeroDivisionError\<close> and returns no progress record; for any
  other total it returns the record, whose percentage is the rounded quotient.
\<close>

theorem get_progress_total_zero:
  "(total_items t = 0 \<longrightarrow> get_progress F t now = Inl ZeroDivisionError)
   \<and> (total_items t \<noteq> 0 \<longrightarrow>
        (\<exists>p. get_progress F t now = Inr p
           \<and> progress_percent p =
               fround F (fmul F (fdiv F (of_int (completed_items t)) (of_int (total_items t))) 100) 2))"
  by (simp add: get_progress_def py_truediv_def Let_def)

theorem get_progress_total_zero_witness:
  "get_progress exact_ops (init_tracker 0 0) 5 = Inl ZeroDivisionError
   \<and> (\<exists>p. get_progress exact_ops (update (init_tracker 4 0) 1) 5 = Inr p
          \<and> progress_percent p = 25)"
  using get_progress_total_zero [of "init_tracker 0 0" exact_ops 5]
        get_progress_total_zero [of "update (init_tracker 4 0) 1" exact_ops 5]
  by (simp add: init_tracker_def update_def exact_ops_def exact_round_def Let_def)

section \<open>The per-item pipeline\<close>

lemma compute_item_calls:
  "\<exists>cs. calls (snd (compute_item D w item ea ec fault now t0 t1))
        = calls w @ OptimizeCall (prompt item) (target_llm item) # cs"
  by (auto simp: compute_item_def run_analysis_def log_call_def Let_def
           split: sum.splits option.splits prod.splits if_splits)

lemma compute_item_result:
  "fst (compute_item D w item ea ec fault now t0 t1) = Inr r \<Longrightarrow>
     item_id r = id_item item \<and> processing_time_seconds r = fsub (arith D) t1 t0 \<and> success r"
  by (auto simp: compute_item_def Let_def split: sum.splits prod.splits)

lemma try_item_result:
  "fst (try_item D w item ea ec fault now t0 t1) = Inr r \<Longrightarrow>
     item_id r = id_item item \<and> processing_time_seconds r = fsub (arith D) t1 t0 \<and> success r"
  by (auto simp: try_item_def Let_def split: prod.splits option.splits if_splits
           dest: compute_item_result)


lemma get_cache_hit:
  assumes "select_row (generate_key H p t ot) (cache_entries c) = Some row"
    and "\<not> expired now row"
    and "cache_files c (generate_key H p t ot) = Some (Pickled d)"
  shows "get_cache H c now p t ot =
           (Some d, c\<lparr>cache_entries := touch_row (generate_key H p t ot) now (cache_entries c)\<rparr>)"
  using assms by (simp add: get_cache_def Let_def)

text \<open>
  C3 (amended).  With the cache enabled, an item whose key has a live row, a readable
  blob and a non-empty payload is answered from the cache: the result is successful and
  built from the payload, and no collaborator is called.
\<close>

theorem warm_cache_no_collaborator:
  assumes "select_row (generate_key (sha256_hexdigest D) (prompt item) (target_llm item)
                         (optimization_type item)) (cache_entries (cache w)) = Some row"
    and "\<not> expired now row"
    and "cache_files (cache w) (generate_key (sha256_hexdigest D) (prompt item) (target_llm item)
                         (optimization_type item)) = Some (Pickled d)"
    and "d \<noteq> []"
  shows "\<exists>r. fst (process_single_item D w item enable_analysis True fault now t0 t1) = Inr r
           \<and> success r \<and> error_message r = None \<and> item_id r = id_item item
           \<and> optimized_prompt r = dict_get d ''optimized_prompt'' (PStr (prompt item))
           \<and> formatted_prompt r = dict_get d ''formatted_prompt'' (PStr (prompt item))
           \<and> analysis r = dict_get d ''analysis'' PNone
           \<and> routing_metadata r = dict_get d ''routing_metadata'' PNone
           \<and> calls (snd (process_single_item D w item enable_analysis True fault now t0 t1))
               = calls w"
  using assms
  by (simp add: process_single_item_def try_item_def get_cache_hit Let_def)

text \<open>
  C10.  Hit or miss is decided by the truthiness of the payload, not by its presence: for
  a live row with a readable blob, an empty dictionary is treated as a miss and the
  optimizer is called again, and every non-empty payload is a hit without any call.
\<close>

theorem cache_hit_by_truthiness:
  assumes "select_row (generate_key (sha256_hexdigest D) (prompt item) (target_llm item)
                         (optimization_type item)) (cache_entries (cache w)) = Some row"
    and "\<not> expired now row"
    and "cache_files (cache w) (generate_key (sha256_hexdigest D) (prompt item) (target_llm item)
                         (optimization_type item)) = Some (Pickled d)"
  shows "(d = [] \<longrightarrow>
            (\<exists>cs. calls (snd (process_single_item D w item enable_analysis True fault now t0 t1))
                   = calls w @ OptimizeCall (prompt item) (target_llm item) # cs))
       \<and> (d \<noteq> [] \<longrightarrow>
            calls (snd (process_single_item D w item enable_analysis True fault now t0 t1))
              = calls w)"
proof (cases "d = []")
  case True
  let ?w1 = "w\<lparr>cache := (cache w)\<lparr>cache_entries :=
               touch_row (generate_key (sha256_hexdigest D) (prompt item) (target_llm item)
                 (optimization_type item)) now (cache_entries (cache w))\<rparr>\<rparr>"
  have "snd (process_single_item D w item enable_analysis True fault now t0 t1)
        = snd (compute_item D ?w1 item enable_analysis True fault now t0 t1)"
    using assms True
    by (simp add: process_single_item_def try_item_def get_cache_hit Let_def
             split: prod.splits sum.splits if_splits)
  with compute_item_calls[of D ?w1 item enable_analysis True fault now t0 t1] True
  show ?thesis by simp
next
  case False
  with assms show ?thesis
    by (simp add: process_single_item_def try_item_def get_cache_hit Let_def)
qed


lemmas item_defs = process_single_item_def try_item_def compute_item_def run_analysis_def
  log_call_def dict_get_def dict_index_def example_deps_def example_item_def example_world_def
  empty_world_def exact_ops_def exact_round_def

theorem warm_cache_no_collaborator_witness:
  "fst (process_single_item example_deps
          (example_world [(''optimized_prompt'', PStr ''cached'')])
          (example_item ''i1'') True True NoFault 5 1 3)
     = Inr \<lparr>item_id = ''i1'', original_prompt = ''p'', optimized_prompt = PStr ''cached'',
             formatted_prompt = PStr ''p'', target_llm_result = ''t'',
             processing_time_seconds = 2, success = True, error_message = None,
             analysis = PNone, routing_metadata = PNone\<rparr>
   \<and> calls (snd (process_single_item example_deps
          (example_world [(''optimized_prompt'', PStr ''cached'')])
          (example_item ''i1'') True True NoFault 5 1 3)) = []"
  using warm_cache_no_collaborator [of example_deps "example_item ''i1''"
          "example_world [(''optimized_prompt'', PStr ''cached'')]"
          "mk_row ''p|t|o'' 0 None 10 (Some 100)" 5 "[(''optimized_prompt'', PStr ''cached'')]"
          True NoFault 1 3]
  by (simp add: item_defs cache_defs Let_def)

text \<open>
  C3 as stated fails: the key of the item has a live, unexpired entry with a readable blob,
  its payload is the empty dictionary, and the pipeline calls the optimizer, the router and
  the analyzer.
\<close>

theorem live_empty_payload_invokes_collaborators:
  "select_row ''p|t|o'' (cache_entries (cache (example_world [])))
     = Some (mk_row ''p|t|o'' 0 None 10 (Some 100))
   \<and> \<not> expired 5 (mk_row ''p|t|o'' 0 None 10 (Some 100))
   \<and> cache_files (cache (example_world [])) ''p|t|o'' = Some (Pickled [])
   \<and> calls (snd (process_single_item example_deps (example_world [])
          (example_item ''i1'') True True NoFault 5 1 3))
      = [OptimizeCall ''p'' ''t'', RouteCall ''opt p'' ''t'', AnalyzeCall ''p'' ''t'',
         SaveAnalysisCall [(''word_count'', PInt 1)]]"
  by (simp add: item_defs cache_defs Let_def)

theorem cache_hit_by_truthiness_witness:
  "calls (snd (process_single_item example_deps (example_world [])
          (example_item ''i1'') False True NoFault 5 1 3))
      = [OptimizeCall ''p'' ''t'', RouteCall ''opt p'' ''t'']
   \<and> calls (snd (process_single_item example_deps
          (example_world [(''optimized_prompt'', PStr ''cached'')])
          (example_item ''i1'') False True NoFault 5 1 3)) = []"
  using cache_hit_by_truthiness [of example_deps "example_item ''i1''" "example_world []"
          "mk_row ''p|t|o'' 0 None 10 (Some 100)" 5 "[]" False NoFault 1 3]
        cache_hit_by_truthiness [of example_deps "example_item ''i1''"
          "example_world [(''optimized_prompt'', PStr ''cached'')]"
          "mk_row ''p|t|o'' 0 None 10 (Some 100)" 5 "[(''optimized_prompt'', PStr ''cached'')]"
          False NoFault 1 3]
  by (simp add: item_defs cache_defs Let_def)

lemma compute_item_raises:
  "optimize D (prompt item) (target_llm item) = Inl e \<Longrightarrow>
     fst (compute_item D w item ea ec fault now t0 t1) = Inl e"
  "optimize D (prompt item) (target_llm item) = Inr opt \<Longrightarrow>
   route_prompt D opt (target_llm item) = Inl e \<Longrightarrow>
     fst (compute_item D w item ea ec fault now t0 t1) = Inl e"
  "optimize D (prompt item) (target_llm item) = Inr opt \<Longrightarrow>
   route_prompt D opt (target_llm item) = Inr rr \<Longrightarrow>
   analyze D (prompt item) (target_llm item) = Inl e \<Longrightarrow>
     fst (compute_item D w item True ec fault now t0 t1) = Inl e"
  by (simp_all add: compute_item_def run_analysis_def Let_def)

lemma try_item_miss:
  assumes "\<not> truthy (if ec then fst (get_cache (sha256_hexdigest D) (cache w) now (prompt item)
                                     (target_llm item) (optimization_type item))
                       else None)"
  shows "\<exists>w1. try_item D w item ea ec fault now t0 t1
              = compute_item D w1 item ea ec fault now t0 t1"
  using assms
  by (auto simp: try_item_def Let_def split: prod.splits option.splits if_splits)

lemma process_single_item_fst:
  "fst (process_single_item D w item ea ec fault now t0 t1) =
     (case fst (try_item D w item ea ec fault now t0 t1) of
        Inr r \<Rightarrow> Inr r
      | Inl e \<Rightarrow>
          if is_Exception e
          then Inr \<lparr>item_id = id_item item, original_prompt = prompt item,
                    optimized_prompt = PStr [], formatted_prompt = PStr [],
                    target_llm_result = target_llm item,
                    processing_time_seconds = fsub (arith D) t1 t0,
                    success = False, error_message = Some (str_exn e),
                    analysis = PNone, routing_metadata = PNone\<rparr>
          else Inl e)"
  by (simp add: process_single_item_def split: prod.splits sum.splits)

lemma process_single_item_result:
  "fst (process_single_item D w item ea ec fault now t0 t1) = Inr r \<Longrightarrow>
     item_id r = id_item item \<and> processing_time_seconds r = fsub (arith D) t1 t0"
  using try_item_result[of D w item ea ec fault now t0 t1]
  by (cases "fst (try_item D w item ea ec fault now t0 t1)")
     (auto simp: process_single_item_fst split: if_splits)

lemma process_single_item_propagates:
  "fst (process_single_item D w item ea ec fault now t0 t1) = Inl e \<Longrightarrow> \<not> is_Exception e"
  by (cases "fst (try_item D w item ea ec fault now t0 t1)")
     (auto simp: process_single_item_fst split: if_splits)

lemma process_single_item_handles:
  assumes "fst (try_item D w item ea ec fault now t0 t1) = Inl e"
  shows "(is_Exception e \<longrightarrow>
            (\<exists>r. fst (process_single_item D w item ea ec fault now t0 t1) = Inr r
               \<and> \<not> success r \<and> error_message r = Some (str_exn e)
               \<and> item_id r = id_item item
               \<and> processing_time_seconds r = fsub (arith D) t1 t0))
       \<and> (\<not> is_Exception e \<longrightarrow>
            fst (process_single_item D w item ea ec fault now t0 t1) = Inl e)"
  using assms by (simp add: process_single_item_fst)

text \<open>
  C6 (amended).  An \<^verbatim>\<open>Exception\<close> never leaves \<^verbatim>\<open>_process_single_item\<close>: what reaches the
  scheduler is a result, or a raised object that is not an \<^verbatim>\<open>Exception\<close>.  Every result
  carries the item's id and the elapsed time, whether it succeeds or fails.  On a cache
  miss, an \<^verbatim>\<open>Exception\<close> raised by the optimizer, the router or the analyzer becomes a
  result with \<^verbatim>\<open>success = False\<close> whose error text is \<^verbatim>\<open>str(e)\<close>, as empty as the
  exception's own text; a raised object of the other kind (\<^verbatim>\<open>SystemExit\<close>,
  \<^verbatim>\<open>KeyboardInterrupt\<close>) is not caught and reaches the scheduler.
\<close>

theorem collaborator_exception_caught:
  "(\<forall>e. fst (process_single_item D w item ea ec fault now t0 t1) = Inl e \<longrightarrow> \<not> is_Exception e)
   \<and> (\<forall>r. fst (process_single_item D w item ea ec fault now t0 t1) = Inr r \<longrightarrow>
          item_id r = id_item item \<and> processing_time_seconds r = fsub (arith D) t1 t0)
   \<and> (\<not> truthy (if ec then fst (get_cache (sha256_hexdigest D) (cache w) now (prompt item)
                                   (target_llm item) (optimization_type item))
                   else None) \<longrightarrow>
        (\<forall>e. optimize D (prompt item) (target_llm item) = Inl e \<longrightarrow>
            (is_Exception e \<longrightarrow>
               (\<exists>r. fst (process_single_item D w item ea ec fault now t0 t1) = Inr r
                  \<and> \<not> success r \<and> error_message r = Some (str_exn e)
                  \<and> item_id r = id_item item
                  \<and> processing_time_seconds r = fsub (arith D) t1 t0))
          \<and> (\<not> is_Exception e \<longrightarrow>
               fst (process_single_item D w item ea ec fault now t0 t1) = Inl e))
      \<and> (\<forall>opt e. optimize D (prompt item) (target_llm item) = Inr opt
                \<and> route_prompt D opt (target_llm item) = Inl e \<longrightarrow>
            (is_Exception e \<longrightarrow>
               (\<exists>r. fst (process_single_item D w item ea ec fault now t0 t1) = Inr r
                  \<and> \<not> success r \<and> error_message r = Some (str_exn e)
                  \<and> item_id r = id_item item
                  \<and> processing_time_seconds r = fsub (arith D) t1 t0))
          \<and> (\<not> is_Exception e \<longrightarrow>
               fst (process_single_item D w item ea ec fault now t0 t1) = Inl e))
      \<and> (\<forall>opt rr e. optimize D (prompt item) (target_llm item) = Inr opt
                \<and> route_prompt D opt (target_llm item) = Inr rr
                \<and> ea \<and> analyze D (prompt item) (target_llm item) = Inl e \<longrightarrow>
            (is_Exception e \<longrightarrow>
               (\<exists>r. fst (process_single_item D w item ea ec fault now t0 t1) = Inr r
                  \<and> \<not> success r \<and> error_message r = Some (str_exn e)
                  \<and> item_id r = id_item item
                  \<and> processing_time_seconds r = fsub (arith D) t1 t0))
          \<and> (\<not> is_Exception e \<longrightarrow>
               fst (process_single_item D w item ea ec fault now t0 t1) = Inl e)))"
proof (intro conjI allI impI)
  fix e assume "fst (process_single_item D w item ea ec fault now t0 t1) = Inl e"
  then show "\<not> is_Exception e" by (rule process_single_item_propagates)
next
  fix r assume r: "fst (process_single_item D w item ea ec fault now t0 t1) = Inr r"
  from process_single_item_result[OF r]
  show "item_id r = id_item item" and "processing_time_seconds r = fsub (arith D) t1 t0"
    by simp_all
next
  assume m: "\<not> truthy (if ec then fst (get_cache (sha256_hexdigest D) (cache w) now (prompt item)
                                   (target_llm item) (optimization_type item))
                   else None)"
  then obtain w1 where w1: "try_item D w item ea ec fault now t0 t1
              = compute_item D w1 item ea ec fault now t0 t1"
    using try_item_miss by blast
  {
    fix e assume "optimize D (prompt item) (target_llm item) = Inl e"
    then have t: "fst (try_item D w item ea ec fault now t0 t1) = Inl e"
      by (simp add: w1 compute_item_raises)
    from process_single_item_handles[OF t]
    show "is_Exception e \<Longrightarrow>
            \<exists>r. fst (process_single_item D w item ea ec fault now t0 t1) = Inr r
               \<and> \<not> success r \<and> error_message r = Some (str_exn e)
               \<and> item_id r = id_item item
               \<and> processing_time_seconds r = fsub (arith D) t1 t0"
      and "\<not> is_Exception e \<Longrightarrow>
            fst (process_single_item D w item ea ec fault now t0 t1) = Inl e"
      by blast+
  next
    fix opt e
    assume "optimize D (prompt item) (target_llm item) = Inr opt
                \<and> route_prompt D opt (target_llm item) = Inl e"
    then have t: "fst (try_item D w item ea ec fault now t0 t1) = Inl e"
      by (simp add: w1 compute_item_raises)
    from process_single_item_handles[OF t]
    show "is_Exception e \<Longrightarrow>
            \<exists>r. fst (process_single_item D w item ea ec fault now t0 t1) = Inr r
               \<and> \<not> success r \<and> error_message r = Some (str_exn e)
               \<and> item_id r = id_item item
               \<and> processing_time_seconds r = fsub (arith D) t1 t0"
      and "\<not> is_Exception e \<Longrightarrow>
            fst (process_single_item D w item ea ec fault now t0 t1) = Inl e"
      by blast+
  next
    fix opt rr e
    assume "optimize D (prompt item) (target_llm item) = Inr opt
                \<and> route_prompt D opt (target_llm item) = Inr rr
                \<and> ea \<and> analyze D (prompt item) (target_llm item) = Inl e"
    then have t: "fst (try_item D w item ea ec fault now t0 t1) = Inl e"
      using compute_item_raises(3)[of D item opt rr e w1 ec fault now t0 t1] w1
      by simp
    from process_single_item_handles[OF t]
    show "is_Exception e \<Longrightarrow>
            \<exists>r. fst (process_single_item D w item ea ec fault now t0 t1) = Inr r
               \<and> \<not> success r \<and> error_message r = Some (str_exn e)
               \<and> item_id r = id_item item
               \<and> processing_time_seconds r = fsub (arith D) t1 t0"
      and "\<not> is_Exception e \<Longrightarrow>
            fst (process_single_item D w item ea ec fault now t0 t1) = Inl e"
      by blast+
  }
qed

theorem collaborator_exception_caught_witness:
  "fst (process_single_item (example_deps\<lparr>route_prompt := (\<lambda>p t. Inl (Exception ''boom''))\<rparr>)
          empty_world (example_item ''i3'') True True NoFault 5 1 3)
     = Inr \<lparr>item_id = ''i3'', original_prompt = ''p'', optimized_prompt = PStr [],
             formatted_prompt = PStr [], target_llm_result = ''t'',
             processing_time_seconds = 2, success = False, error_message = Some ''boom'',
             analysis = PNone, routing_metadata = PNone\<rparr>
   \<and> fst (process_single_item (example_deps\<lparr>optimize := (\<lambda>p t. Inl (BaseException ''exit''))\<rparr>)
          empty_world (example_item ''i3'') True True NoFault 5 1 3)
     = Inl (BaseException ''exit'')"
  using collaborator_exception_caught [of
          "example_deps\<lparr>route_prompt := (\<lambda>p t. Inl (Exception ''boom''))\<rparr>"
          empty_world "example_item ''i3''" True True NoFault 5 1 3]
        collaborator_exception_caught [of
          "example_deps\<lparr>optimize := (\<lambda>p t. Inl (BaseException ''exit''))\<rparr>"
          empty_world "example_item ''i3''" True True NoFault 5 1 3]
  by (simp add: item_defs cache_defs Let_def)

text \<open>
  C6 as stated fails: an exception without a message (\<^verbatim>\<open>raise RuntimeError()\<close>) gives a
  failed result whose error text is the empty string.
\<close>

theorem exception_with_empty_text:
  "fst (process_single_item (example_deps\<lparr>optimize := (\<lambda>p t. Inl (Exception []))\<rparr>)
          empty_world (example_item ''i3'') True True NoFault 5 1 3)
     = Inr \<lparr>item_id = ''i3'', original_prompt = ''p'', optimized_prompt = PStr [],
             formatted_prompt = PStr [], target_llm_result = ''t'',
             processing_time_seconds = 2, success = False, error_message = Some [],
             analysis = PNone, routing_metadata = PNone\<rparr>"
  by (simp add: item_defs cache_defs Let_def)

section \<open>The batch report\<close>

lemma get_progress_returns:
  "total_items t \<noteq> 0 \<Longrightarrow> \<exists>p. get_progress F t now = Inr p"
  by (simp add: get_progress_def py_truediv_def Let_def)

lemma get_progress_raises_Exception:
  "get_progress F t now = Inl e \<Longrightarrow> is_Exception e"
  by (auto simp: get_progress_def py_truediv_def ZeroDivisionError_def Let_def
           split: if_splits)

lemma collect_result_ok:
  assumes cb: "cb = None \<or> (\<exists>f. cb = Some f \<and> (\<forall>p. f p = None))"
    and tot: "total_items pr \<noteq> 0"
  shows "\<exists>rep' pr'. collect_result F cb tnow (rep, pr) item (Inr res) = Inr (rep', pr')
       \<and> processed_items rep' = processed_items rep + 1
       \<and> successful_items rep' + failed_items rep' = successful_items rep + failed_items rep + 1
       \<and> results rep' = results rep @ [res]
       \<and> total_items pr' = total_items pr"
proof -
  have "total_items (update pr 1) \<noteq> 0" using tot by (simp add: update_def)
  then obtain p where p: "get_progress F (update pr 1) tnow = Inr p"
    using get_progress_returns by blast
  from cb show ?thesis
  proof
    assume "cb = None"
    then show ?thesis
      by (simp add: collect_result_def Let_def update_def split: option.splits)
  next
    assume "\<exists>f. cb = Some f \<and> (\<forall>p. f p = None)"
    then obtain f where "cb = Some f" and "\<forall>p. f p = None" by blast
    with p show ?thesis
      by (simp add: collect_result_def Let_def update_def split: option.splits)
  qed
qed

lemma collect_result_propagates:
  "\<not> is_Exception e \<Longrightarrow> collect_result F cb tnow acc item (Inl e) = Inl e"
  by (simp add: collect_result_def loop_handler_def split: prod.splits)

lemma run_batch_counts:
  assumes cb: "cb = None \<or> (\<exists>f. cb = Some f \<and> (\<forall>p. f p = None))"
    and tot: "total_items (snd acc) \<noteq> 0"
    and ret: "fst (run_batch D ea ec cb w acc rs) = Inr (rep, pr)"
  shows "processed_items rep = processed_items (fst acc) + length rs
       \<and> successful_items rep + failed_items rep
           = successful_items (fst acc) + failed_items (fst acc) + length rs
       \<and> map item_id (results rep)
           = map item_id (results (fst acc)) @ map (\<lambda>r. id_item (run_item r)) rs"
  using tot ret
proof (induction rs arbitrary: w acc)
  case Nil
  then show ?case by simp
next
  case (Cons r rs)
  let ?p = "process_single_item D w (run_item r) ea ec (run_fault r)
              (run_now r) (run_start r) (run_end r)"
  show ?case
  proof (cases "fst ?p")
    case (Inl e)
    then have "\<not> is_Exception e" by (rule process_single_item_propagates)
    moreover obtain w' where "?p = (Inl e, w')" using Inl by (metis prod.collapse)
    ultimately have "fst (run_batch D ea ec cb w acc (r # rs)) = Inl e"
      by (simp add: collect_result_propagates)
    with Cons.prems(2) show ?thesis by simp
  next
    case (Inr res)
    then have rid: "item_id res = id_item (run_item r)"
      using process_single_item_result by blast
    obtain w' where pw: "?p = (Inr res, w')" using Inr by (metis prod.collapse)
    obtain rep' pr' where
      c: "collect_result (arith D) cb (run_reported r) acc (run_item r) (Inr res) = Inr (rep', pr')"
      and step: "processed_items rep' = processed_items (fst acc) + 1"
        "successful_items rep' + failed_items rep'
           = successful_items (fst acc) + failed_items (fst acc) + 1"
        "results rep' = results (fst acc) @ [res]"
        "total_items pr' = total_items (snd acc)"
      using collect_result_ok[OF cb Cons.prems(1), of "arith D" "run_reported r" "fst acc"
              "run_item r" res]
      by auto
    have nz: "total_items (snd (rep', pr')) \<noteq> 0" using step(4) Cons.prems(1) by simp
    have r2: "fst (run_batch D ea ec cb w' (rep', pr') rs) = Inr (rep, pr)"
      using Cons.prems(2) by (simp add: pw c)
    from Cons.IH[OF nz r2] step rid show ?thesis by simp
  qed
qed

lemma run_batch_total_items:
  "fst (run_batch D ea ec cb w acc rs) = Inr (rep, pr) \<Longrightarrow>
     total_items_report rep = total_items_report (fst acc)"
proof (induction rs arbitrary: w acc)
  case Nil
  then show ?case by auto
next
  case (Cons r rs)
  then show ?case
    by (auto simp: collect_result_def loop_handler_def critical_error_def Let_def
             split: prod.splits sum.splits option.splits if_splits)
qed

text \<open>
  When there is no progress callback, or the callback never raises, every report that
  \<^verbatim>\<open>process_batch\<close> returns counts every item once: \<open>processed_items\<close> and
  \<open>successful_items + failed_items\<close> are the number of submitted items, and the ids of the
  results are the ids of the items in completion order.
\<close>

lemma process_batch_counts:
  assumes cb: "cb = None \<or> (\<exists>f. cb = Some f \<and> (\<forall>p. f p = None))"
    and perm: "mset completed = mset runs"
    and ret: "fst (process_batch D w runs completed bid gen ea ec cb ts tc tt) = Inr report"
  shows "total_items_report report = length runs
       \<and> processed_items report = length runs
       \<and> successful_items report + failed_items report = length runs
       \<and> map item_id (results report) = map (\<lambda>r. id_item (run_item r)) completed
       \<and> mset (map item_id (results report)) = mset (map (\<lambda>r. id_item (run_item r)) runs)"
proof -
  let ?bid = "case bid of None \<Rightarrow> gen | Some b \<Rightarrow> if b = [] then gen else b"
  let ?r0 = "\<lparr>batch_id = ?bid, started_at = ts, completed_at = None,
              total_items_report = length runs, processed_items = 0,
              successful_items = 0, failed_items = 0, total_time_seconds = 0,
              average_time_per_item = 0, results = [], errors = []\<rparr>"
  let ?p0 = "init_tracker (int (length runs)) tt"
  let ?run = "run_batch D ea ec cb w (?r0, ?p0) completed"
  have len: "length completed = length runs" using perm by (rule mset_eq_length)
  obtain rep pr where run: "fst ?run = Inr (rep, pr)"
    and fin: "processed_items report = processed_items rep"
      "successful_items report = successful_items rep"
      "failed_items report = failed_items rep"
      "results report = results rep"
      "total_items_report report = total_items_report rep"
    using ret
    by (auto simp: process_batch_def Let_def split: prod.splits sum.splits if_splits)
  have loop: "processed_items rep = length runs
       \<and> successful_items rep + failed_items rep = length runs
       \<and> map item_id (results rep) = map (\<lambda>r. id_item (run_item r)) completed"
  proof (cases "runs = []")
    case True
    then have "completed = []" using len by simp
    with run True show ?thesis by auto
  next
    case False
    then have "total_items (snd (?r0, ?p0)) \<noteq> 0" by (simp add: init_tracker_def)
    from run_batch_counts[OF cb this run] len show ?thesis by simp
  qed
  have total: "total_items_report rep = length runs"
    using run_batch_total_items[OF run] by simp
  have "mset (map (\<lambda>r. id_item (run_item r)) completed)
        = mset (map (\<lambda>r. id_item (run_item r)) runs)"
    using perm by (metis mset_map)
  with loop total fin show ?thesis by simp
qed

text \<open>
  When the collaborators and the callback raise nothing but instances of \<^verbatim>\<open>Exception\<close>,
  every item yields a result and \<^verbatim>\<open>process_batch\<close> returns a report.
\<close>

lemma compute_item_raises_Exception:
  assumes "raise_only_Exception D"
    and "fst (compute_item D w item ea ec fault now t0 t1) = Inl e"
  shows "is_Exception e"
  using assms(2) assms(1)
  by (auto simp: raise_only_Exception_def compute_item_def run_analysis_def dict_index_def
                 Let_def
           split: sum.splits option.splits prod.splits if_splits)

lemma process_single_item_returns:
  assumes "raise_only_Exception D"
  shows "\<exists>r. fst (process_single_item D w item ea ec fault now t0 t1) = Inr r"
proof (cases "fst (try_item D w item ea ec fault now t0 t1)")
  case (Inr r)
  then show ?thesis by (simp add: process_single_item_fst)
next
  case (Inl e)
  then obtain w1 where "fst (compute_item D w1 item ea ec fault now t0 t1) = Inl e"
    by (auto simp: try_item_def Let_def split: prod.splits option.splits if_splits)
  then have "is_Exception e"
    using compute_item_raises_Exception[OF assms] by blast
  with Inl show ?thesis by (simp add: process_single_item_fst)
qed

lemma collect_result_returns:
  assumes "callback_raises_only_Exception cb"
  shows "\<exists>acc'. collect_result F cb tnow acc item (Inr res) = Inr acc'"
  using assms get_progress_raises_Exception[of F _ tnow]
  by (cases acc)
     (auto simp: callback_raises_only_Exception_def collect_result_def loop_handler_def Let_def
           split: option.splits sum.splits)

lemma run_batch_returns:
  assumes "raise_only_Exception D" and "callback_raises_only_Exception cb"
  shows "\<exists>acc'. fst (run_batch D ea ec cb w acc rs) = Inr acc'"
proof (induction rs arbitrary: w acc)
  case Nil
  show ?case by simp
next
  case (Cons r rs)
  obtain res where "fst (process_single_item D w (run_item r) ea ec (run_fault r)
              (run_now r) (run_start r) (run_end r)) = Inr res"
    using process_single_item_returns[OF assms(1)] by blast
  then obtain w' where pw: "process_single_item D w (run_item r) ea ec (run_fault r)
              (run_now r) (run_start r) (run_end r) = (Inr res, w')"
    by (metis prod.collapse)
  obtain acc' where
    c: "collect_result (arith D) cb (run_reported r) acc (run_item r) (Inr res) = Inr acc'"
    using collect_result_returns[OF assms(2)] by blast
  from Cons.IH[of w' acc'] show ?case by (simp add: pw c)
qed

lemma process_batch_returns:
  assumes "raise_only_Exception D" and "callback_raises_only_Exception cb"
  shows "\<exists>report. fst (process_batch D w runs completed bid gen ea ec cb ts tc tt) = Inr report"
proof -
  obtain acc' where "fst (run_batch D ea ec cb w
      (\<lparr>batch_id = (case bid of None \<Rightarrow> gen | Some b \<Rightarrow> if b = [] then gen else b),
        started_at = ts, completed_at = None,
        total_items_report = length runs, processed_items = 0,
        successful_items = 0, failed_items = 0, total_time_seconds = 0,
        average_time_per_item = 0, results = [], errors = []\<rparr>,
       init_tracker (int (length runs)) tt) completed) = Inr acc'"
    using run_batch_returns[OF assms] by blast
  then show ?thesis
    by (cases acc') (auto simp: process_batch_def Let_def split: prod.splits sum.splits)
qed

lemmas batch_defs = process_batch_def collect_result_def critical_error_def loop_handler_def
  init_tracker_def update_def get_progress_def py_truediv_def example_run_def

text \<open>
  C1.  The counts of the report do not always add up.  The progress callback is called
  inside the \<^verbatim>\<open>try\<close> block of the scheduler's loop, after the result has been appended and
  counted; when the callback raises, the handler for a critical item error counts the item
  as failed again.  For a batch of one item that succeeds and a callback that raises, the
  report has one processed item, one successful item and one failed item.
\<close>

theorem raising_callback_counted_twice:
  "\<exists>report.
     fst (process_batch example_deps empty_world [example_run ''i1'' 1] [example_run ''i1'' 1]
            None ''batch_1'' True True (Some (\<lambda>p. Some (Exception ''callback failed'')))
            0 2000000 0)
       = Inr report
   \<and> total_items_report report = 1
   \<and> processed_items report = 1
   \<and> successful_items report = 1
   \<and> failed_items report = 1
   \<and> map success (results report) = [True]"
  by (simp add: batch_defs item_defs cache_defs Let_def)

end
